theory Spec2Isabelle
  imports Complex_Main
begin

section \<open>Data model of the document view\<close>

text \<open>
  The view (\<^verbatim>\<open>src/app/pages/documents/view.js\<close>) reads bounding boxes through the
  properties \<^verbatim>\<open>Left\<close>, \<^verbatim>\<open>Top\<close>, \<^verbatim>\<open>Width\<close> and \<^verbatim>\<open>Height\<close>; these are the
  normalized left, top, width and height of the specification. JavaScript numbers are
  idealised as reals.
\<close>

record bbox =
  Left :: real
  Top :: real
  Width :: real
  Height :: real

text \<open>
  A key-value pair, with the properties the view reads: \<^verbatim>\<open>id\<close>, \<^verbatim>\<open>pageNumber\<close>,
  \<^verbatim>\<open>keyBoundingBox\<close> and \<^verbatim>\<open>valueBoundingBox\<close>.
\<close>

record kvpair =
  pair_id :: string
  pageNumber :: nat
  keyBoundingBox :: bbox
  valueBoundingBox :: bbox

text \<open>
  A mark handed to the viewer by the key-value tab: the object spread
  \<^verbatim>\<open>{ ...keyBoundingBox, id, type: 'key' }\<close> is a bounding box extended by the
  properties \<^verbatim>\<open>id\<close> and \<^verbatim>\<open>type\<close>.
\<close>

record mark = bbox +
  mark_id :: string
  mark_type :: string

definition spread_mark :: "bbox \<Rightarrow> string \<Rightarrow> string \<Rightarrow> mark" where
  "spread_mark b i t =
     \<lparr>Left = Left b, Top = Top b, Width = Width b, Height = Height b,
      mark_id = i, mark_type = t\<rparr>"

section \<open>Derived page data\<close>

text \<open>
  \<^verbatim>\<open>docData.pairs = getDocumentKeyValuePairs(document)\<close>. The helper lives in
  \<^verbatim>\<open>utils/document\<close>; it is a parameter here.
\<close>

definition docData_pairs :: "('d \<Rightarrow> kvpair list) \<Rightarrow> 'd \<Rightarrow> kvpair list" where
  "docData_pairs getDocumentKeyValuePairs document = getDocumentKeyValuePairs document"

text \<open>
  \<^verbatim>\<open>pageData.pairs = docData.pairs.filter(d => d.pageNumber === currentPageNumber)\<close>
\<close>

definition pageData_pairs :: "('d \<Rightarrow> kvpair list) \<Rightarrow> 'd \<Rightarrow> nat \<Rightarrow> kvpair list" where
  "pageData_pairs getDocumentKeyValuePairs document currentPageNumber =
     filter (\<lambda>d. pageNumber d = currentPageNumber)
       (docData_pairs getDocumentKeyValuePairs document)"

text \<open>
  \<^verbatim>\<open>pagePairsAsMarks\<close>: a \<^verbatim>\<open>reduce\<close> from the empty array whose step spreads the
  accumulator and appends the key mark and then the value mark of the pair.
\<close>

definition marks_step :: "mark list \<Rightarrow> kvpair \<Rightarrow> mark list" where
  "marks_step acc p =
     acc @ [spread_mark (keyBoundingBox p) (pair_id p) ''key'',
            spread_mark (valueBoundingBox p) (pair_id p) ''value'']"

definition pagePairsAsMarks :: "kvpair list \<Rightarrow> mark list" where
  "pagePairsAsMarks pairs = foldl marks_step [] pairs"

section \<open>Commands dispatched to the store\<close>

text \<open>
  The actions this view creates and dispatches (\<^verbatim>\<open>fetchDocument\<close>, \<^verbatim>\<open>addRedactions\<close>,
  \<^verbatim>\<open>clearRedactions\<close>, \<^verbatim>\<open>setCurrentPageNumber\<close>, \<^verbatim>\<open>setSearchQuery\<close>,
  \<^verbatim>\<open>setHeaderProps\<close>). A callback of the view is modelled by the list of actions it
  dispatches, in dispatch order. The header properties are an object with an optional
  \<^verbatim>\<open>heading\<close>.
\<close>

datatype action =
    FetchDocument string
  | AddRedactions string nat "bbox list"
  | ClearRedactions string
  | SetCurrentPageNumber nat
  | SetSearchQuery string
  | SetHeaderProps "string option"

text \<open>
  \<^verbatim>\<open>redactMatches\<close>: \<^verbatim>\<open>dispatch(addRedactions(id, currentPageNumber, wordsMatchingSearch))\<close>
  and then \<^verbatim>\<open>dispatch(setSearchQuery(''))\<close>.
\<close>

definition redactMatches :: "string \<Rightarrow> nat \<Rightarrow> bbox list \<Rightarrow> action list" where
  "redactMatches doc_id currentPageNumber wordsMatchingSearch =
     [AddRedactions doc_id currentPageNumber wordsMatchingSearch, SetSearchQuery '''']"

text \<open>
  \<^verbatim>\<open>redact(bbox, pageNumber = currentPageNumber)\<close>: the default applies when the
  second argument is not passed (\<open>None\<close>).
\<close>

definition redact :: "string \<Rightarrow> nat \<Rightarrow> bbox \<Rightarrow> nat option \<Rightarrow> action list" where
  "redact doc_id currentPageNumber box pageNumber_arg =
     [AddRedactions doc_id
        (case pageNumber_arg of None \<Rightarrow> currentPageNumber | Some n \<Rightarrow> n) [box]]"

definition clearReds :: "string \<Rightarrow> action list" where
  "clearReds doc_id = [ClearRedactions doc_id]"

text \<open>
  \<^verbatim>\<open>redactAllValues\<close>:
  \<^verbatim>\<open>dispatch(addRedactions(id, currentPageNumber, pageData.pairs.map(p => p.valueBoundingBox)))\<close>
\<close>

definition redactAllValues :: "string \<Rightarrow> nat \<Rightarrow> kvpair list \<Rightarrow> action list" where
  "redactAllValues doc_id currentPageNumber pairs =
     [AddRedactions doc_id currentPageNumber (map valueBoundingBox pairs)]"

definition switchPage :: "nat \<Rightarrow> action list" where
  "switchPage pageNumber_arg = [SetCurrentPageNumber pageNumber_arg]"

section \<open>The store\<close>

text \<open>
  Modelled from the spec: the reducers of \<^verbatim>\<open>store/entities/documents\<close>,
  \<^verbatim>\<open>store/entities/meta\<close> and \<^verbatim>\<open>store/ui\<close> are not part of the sources at hand. The
  store keeps, for each document id, a mapping from page number to an ordered list of
  boxes, created on the first redaction for a (document, page); the current page
  number; the search query; and the header properties.
\<close>

record store =
  redactionSets :: "string \<Rightarrow> nat \<rightharpoonup> bbox list"
  currentPageNumber :: nat
  searchQuery :: string
  headerProps :: "string option"

text \<open>
  Modelled from the spec: reading the redaction set of a (document, page); a page
  without an entry reads as the empty collection.
\<close>

definition redactionSet :: "store \<Rightarrow> string \<Rightarrow> nat \<Rightarrow> bbox list" where
  "redactionSet s doc_id page =
     (case redactionSets s doc_id page of None \<Rightarrow> [] | Some boxes \<Rightarrow> boxes)"

text \<open>
  Modelled from the spec: the store write contract. \<^verbatim>\<open>addRedactions(id, pageNumber, boxes)\<close>
  appends the boxes to the list of (id, pageNumber), without de-duplication;
  \<^verbatim>\<open>clearRedactions(id)\<close> removes all redaction state of the document, on all pages;
  \<^verbatim>\<open>setCurrentPageNumber\<close>, \<^verbatim>\<open>setSearchQuery\<close> and \<^verbatim>\<open>setHeaderProps\<close> store their
  argument. \<^verbatim>\<open>fetchDocument\<close> is asynchronous: dispatching it changes nothing at once.
\<close>

fun reduce :: "store \<Rightarrow> action \<Rightarrow> store" where
  "reduce s (FetchDocument i) = s"
| "reduce s (AddRedactions i p boxes) =
     s\<lparr>redactionSets :=
         (redactionSets s)(i := (redactionSets s i)(p \<mapsto> redactionSet s i p @ boxes))\<rparr>"
| "reduce s (ClearRedactions i) =
     s\<lparr>redactionSets := (redactionSets s)(i := Map.empty)\<rparr>"
| "reduce s (SetCurrentPageNumber n) = s\<lparr>currentPageNumber := n\<rparr>"
| "reduce s (SetSearchQuery q) = s\<lparr>searchQuery := q\<rparr>"
| "reduce s (SetHeaderProps h) = s\<lparr>headerProps := h\<rparr>"

definition dispatch_all :: "store \<Rightarrow> action list \<Rightarrow> store" where
  "dispatch_all s acts = foldl reduce s acts"

section \<open>Life cycle of the view\<close>

text \<open>
  The properties of a render that the effects of \<^verbatim>\<open>Document\<close> and of
  \<^verbatim>\<open>useFetchDocument\<close> depend on. \<^verbatim>\<open>isDocumentFetched\<close> is
  \<^verbatim>\<open>!!document.textractResponse\<close>; \<^verbatim>\<open>documentName\<close> is undefined on the default
  document \<^verbatim>\<open>{}\<close>.
\<close>

record props =
  p_id :: string
  p_isDocumentFetched :: bool
  p_documentName :: "string option"
  p_pageTitle :: "string option"
  p_track :: string

text \<open>
  The state of a mounted instance: the properties of its latest render (the
  dependencies the effects last ran with), the id captured by the clean-up function
  that the effect of lines 82-86 registered when it last ran, the reference
  \<^verbatim>\<open>isMounted.current\<close>, the calls of \<^verbatim>\<open>setStatus\<close> so far (latest first) and the
  number of promises of \<^verbatim>\<open>dispatch(fetchDocument(id))\<close> that have not settled yet.
\<close>

record view =
  rendered :: props
  clear_cleanup_id :: string
  isMounted :: bool
  setStatus_calls :: "string list"
  pending_fetches :: nat

text \<open>\<^verbatim>\<open>useState('')\<close>: the status is the latest committed one, initially empty.\<close>

definition status :: "view \<Rightarrow> string" where
  "status v = (case setStatus_calls v of [] \<Rightarrow> '''' | s # _ \<Rightarrow> s)"

text \<open>\<^verbatim>\<open>isMounted.current && setStatus(s)\<close>\<close>

definition commit_status :: "string \<Rightarrow> view \<Rightarrow> view" where
  "commit_status s v =
     (if isMounted v then v\<lparr>setStatus_calls := s # setStatus_calls v\<rparr> else v)"

text \<open>
  The body of the effect of \<^verbatim>\<open>useFetchDocument\<close> (dependencies \<^verbatim>\<open>dispatch\<close>,
  \<^verbatim>\<open>id\<close>, \<^verbatim>\<open>isDocumentFetched\<close>).
\<close>

definition fetch_effect :: "props \<Rightarrow> view \<Rightarrow> view \<times> action list" where
  "fetch_effect pr v =
     (if \<not> p_isDocumentFetched pr then
        ((commit_status ''pending'' v)\<lparr>pending_fetches := Suc (pending_fetches v)\<rparr>,
         [FetchDocument (p_id pr)])
      else (commit_status ''success'' v, []))"

text \<open>
  \<^verbatim>\<open>reject(either(isNil, isEmpty), { heading: documentName })\<close>: the heading is dropped
  when the document name is undefined or the empty string.
\<close>

definition header_of :: "props \<Rightarrow> string option" where
  "header_of pr =
     (case p_documentName pr of None \<Rightarrow> None
      | Some n \<Rightarrow> if n = [] then None else Some n)"

text \<open>
  Mounting: the first render commits and the effects run in the order of their hooks:
  the fetch effect, the effect registering the reset of \<^verbatim>\<open>isMounted\<close>,
  \<^verbatim>\<open>dispatch(setCurrentPageNumber(1))\<close>, the effect registering the clearing of the
  redactions of \<^verbatim>\<open>id\<close>, and \<^verbatim>\<open>dispatch(setHeaderProps(...))\<close>.
\<close>

definition mount :: "props \<Rightarrow> view \<times> action list" where
  "mount pr =
     (let v0 = \<lparr>rendered = pr, clear_cleanup_id = p_id pr, isMounted = True,
                setStatus_calls = [], pending_fetches = 0\<rparr>;
          (v1, fetch_acts) = fetch_effect pr v0
      in (v1, fetch_acts @ [SetCurrentPageNumber 1] @ [SetHeaderProps (header_of pr)]))"

datatype event = Rerender props | FetchResolved | FetchRejected | Unmount

text \<open>
  One event of the instance's life. On a re-render, the clean-up functions of the effects
  whose dependencies changed run first, then the bodies of those effects. A promise
  settles only while one is pending; \<^verbatim>\<open>.then\<close> commits \<^verbatim>\<open>'success'\<close> and \<^verbatim>\<open>.catch\<close>
  commits \<^verbatim>\<open>'error'\<close>, both behind the guard. Unmounting runs the clean-up functions in
  the order of their hooks: \<^verbatim>\<open>isMounted.current = false\<close>,
  \<^verbatim>\<open>dispatch(clearRedactions(id))\<close>, \<^verbatim>\<open>dispatch(setHeaderProps({}))\<close>.
\<close>

fun step :: "view \<Rightarrow> event \<Rightarrow> view \<times> action list" where
  "step v (Rerender pr) =
     (let old = rendered v;
          id_changed = (p_id pr \<noteq> p_id old);
          fetch_changed = (id_changed \<or> p_isDocumentFetched pr \<noteq> p_isDocumentFetched old);
          header_changed = (p_documentName pr \<noteq> p_documentName old
                            \<or> p_pageTitle pr \<noteq> p_pageTitle old
                            \<or> p_track pr \<noteq> p_track old);
          cleanups = (if id_changed then [ClearRedactions (clear_cleanup_id v)] else [])
                     @ (if header_changed then [SetHeaderProps None] else []);
          (v1, fetch_acts) = (if fetch_changed then fetch_effect pr v else (v, []));
          v2 = v1\<lparr>rendered := pr,
                  clear_cleanup_id := (if id_changed then p_id pr else clear_cleanup_id v1)\<rparr>
      in (v2, cleanups @ fetch_acts
                @ (if header_changed then [SetHeaderProps (header_of pr)] else [])))"
| "step v FetchResolved =
     (if pending_fetches v = 0 then (v, [])
      else (commit_status ''success'' (v\<lparr>pending_fetches := pending_fetches v - 1\<rparr>), []))"
| "step v FetchRejected =
     (if pending_fetches v = 0 then (v, [])
      else (commit_status ''error'' (v\<lparr>pending_fetches := pending_fetches v - 1\<rparr>), []))"
| "step v Unmount =
     (v\<lparr>isMounted := False\<rparr>, [ClearRedactions (clear_cleanup_id v), SetHeaderProps None])"

fun run :: "view \<Rightarrow> event list \<Rightarrow> view \<times> action list" where
  "run v [] = (v, [])"
| "run v (e # es) =
     (let (v1, acts1) = step v e; (v2, acts2) = run v1 es in (v2, acts1 @ acts2))"

section \<open>Raster export\<close>

datatype js_error = TypeError

text \<open>
  The element found by \<^verbatim>\<open>contentRef.current.querySelector('canvas,img')\<close>: an image
  has \<^verbatim>\<open>naturalWidth\<close> and \<^verbatim>\<open>naturalHeight\<close>, on a canvas they are undefined
  (\<open>None\<close>); both have \<^verbatim>\<open>width\<close> and \<^verbatim>\<open>height\<close>. \<open>bitmap e x y\<close> is the colour of
  the element's image at column \<open>x\<close> and row \<open>y\<close>.
\<close>

record 'c element =
  naturalWidth :: "nat option"
  naturalHeight :: "nat option"
  width :: nat
  height :: nat
  bitmap :: "nat \<Rightarrow> nat \<Rightarrow> 'c"

text \<open>\<^verbatim>\<open>a || b\<close> on a number that may be undefined: undefined and 0 are falsy.\<close>

definition js_or :: "nat option \<Rightarrow> nat \<Rightarrow> nat" where
  "js_or a b = (case a of None \<Rightarrow> b | Some n \<Rightarrow> if n = 0 then b else n)"

text \<open>
  The intrinsic size at which \<^verbatim>\<open>drawImage(theThing, 0, 0)\<close> draws its source: the
  natural size of an image, the size of a canvas.
\<close>

definition intrinsic_width :: "'c element \<Rightarrow> nat" where
  "intrinsic_width e = (case naturalWidth e of None \<Rightarrow> width e | Some n \<Rightarrow> n)"

definition intrinsic_height :: "'c element \<Rightarrow> nat" where
  "intrinsic_height e = (case naturalHeight e of None \<Rightarrow> height e | Some n \<Rightarrow> n)"

text \<open>
  A pixel of the off-screen canvas: still transparent, copied from the source, painted
  with a fill style, or, where the edge of a rectangle cuts through the pixel, a blend of
  a fill style over what was there.
\<close>

datatype 'c pixel = Transparent | Source 'c | Filled string | Blended string "'c pixel"

record 'c canvas =
  cnv_width :: nat
  cnv_height :: nat
  fillStyle :: string
  pixels :: "nat \<Rightarrow> nat \<Rightarrow> 'c pixel"

text \<open>
  \<^verbatim>\<open>createElement('canvas')\<close> followed by the assignments of \<^verbatim>\<open>width\<close> and
  \<^verbatim>\<open>height\<close>: a transparent bitmap of that size with the default fill style.
\<close>

definition createCanvas :: "nat \<Rightarrow> nat \<Rightarrow> 'c canvas" where
  "createCanvas w h =
     \<lparr>cnv_width = w, cnv_height = h, fillStyle = ''#000000'', pixels = (\<lambda>x y. Transparent)\<rparr>"

text \<open>\<^verbatim>\<open>ctx.drawImage(theThing, 0, 0)\<close>: the source at the origin, unscaled.\<close>

definition drawImage :: "'c canvas \<Rightarrow> 'c element \<Rightarrow> 'c canvas" where
  "drawImage cnv e =
     cnv\<lparr>pixels := (\<lambda>x y.
       if x < cnv_width cnv \<and> y < cnv_height cnv
          \<and> x < intrinsic_width e \<and> y < intrinsic_height e
       then Source (bitmap e x y) else pixels cnv x y)\<rparr>"

text \<open>An opaque style over itself stays; over anything else the result is a blend.\<close>

definition blend :: "string \<Rightarrow> 'c pixel \<Rightarrow> 'c pixel" where
  "blend style old = (if old = Filled style then old else Blended style old)"

text \<open>
  \<^verbatim>\<open>ctx.fillRect(x, y, w, h)\<close>: no effect when \<open>w\<close> or \<open>h\<close> is zero; otherwise the
  rectangle between \<open>x\<close> and \<open>x + w\<close> and between \<open>y\<close> and \<open>y + h\<close>. Pixel
  \<open>(i, j)\<close> is the square from \<open>(i, j)\<close> to \<open>(i + 1, j + 1)\<close>: it takes the fill
  style when the rectangle contains it, is unchanged when the rectangle misses it, and is
  blended otherwise.
\<close>

definition fillRect :: "'c canvas \<Rightarrow> real \<Rightarrow> real \<Rightarrow> real \<Rightarrow> real \<Rightarrow> 'c canvas" where
  "fillRect cnv x y w h =
     (if w = 0 \<or> h = 0 then cnv
      else
        let x0 = min x (x + w); x1 = max x (x + w);
            y0 = min y (y + h); y1 = max y (y + h)
        in cnv\<lparr>pixels := (\<lambda>i j.
             if \<not> (i < cnv_width cnv \<and> j < cnv_height cnv) then pixels cnv i j
             else if x0 \<le> real i \<and> real i + 1 \<le> x1 \<and> y0 \<le> real j \<and> real j + 1 \<le> y1
               then Filled (fillStyle cnv)
             else if real i + 1 \<le> x0 \<or> x1 \<le> real i \<or> real j + 1 \<le> y0 \<or> y1 \<le> real j
               then pixels cnv i j
             else blend (fillStyle cnv) (pixels cnv i j))\<rparr>)"

text \<open>The body of the \<^verbatim>\<open>forEach\<close> of lines 173-180, for one redaction \<^verbatim>\<open>red\<close>.\<close>

definition fill_redaction :: "'c canvas \<Rightarrow> bbox \<Rightarrow> 'c canvas" where
  "fill_redaction cnv red =
     (let x = (\<lambda>val. val * real (cnv_width cnv));
          y = (\<lambda>val. val * real (cnv_height cnv));
          margin = 2
      in fillRect cnv (x (Left red) - margin) (y (Top red) - margin)
           (x (Width red) + 2 * margin) (y (Height red) + 2 * margin))"

text \<open>\<^verbatim>\<open>objectName.split('/')\<close>: the pieces between the slashes; never empty.\<close>

fun split_on :: "char \<Rightarrow> string \<Rightarrow> string list" where
  "split_on c [] = [[]]"
| "split_on c (x # xs) =
     (let r = split_on c xs in if x = c then [] # r else (x # hd r) # tl r)"

text \<open>
  The regular expression \<^verbatim>\<open>/\.[^.]+$/\<close> matches at the start of \<open>s\<close> when \<open>s\<close> is
  a dot followed, up to the end of the input, by one or more characters that are not
  dots.
\<close>

definition ext_match :: "string \<Rightarrow> bool" where
  "ext_match s =
     (case s of [] \<Rightarrow> False
      | c # rest \<Rightarrow> c = CHR ''.'' \<and> rest \<noteq> [] \<and> CHR ''.'' \<notin> set rest)"

text \<open>
  \<^verbatim>\<open>.replace(/\.[^.]+$/, '-REDACTED.png')\<close>: the leftmost match, which reaches the end
  of the string, is replaced; a string without a match is returned as it is.
\<close>

fun replace_ext :: "string \<Rightarrow> string" where
  "replace_ext [] = []"
| "replace_ext (c # cs) =
     (if ext_match (c # cs) then ''-REDACTED.png'' else c # replace_ext cs)"

text \<open>\<^verbatim>\<open>objectName.split('/').pop().replace(/\.[^.]+$/, '-REDACTED.png')\<close>\<close>

definition download_name :: "string \<Rightarrow> string" where
  "download_name objName = replace_ext (last (split_on CHR ''/'' objName))"

text \<open>
  The properties of \<^verbatim>\<open>document\<close> that the export reads; both are undefined on the
  default document \<^verbatim>\<open>{}\<close>. \<^verbatim>\<open>Object.values(document.redactions[currentPageNumber])\<close>
  is the list of the page's boxes; \<open>currentPage\<close> below is \<^verbatim>\<open>currentPageNumber\<close>.
\<close>

record document =
  objectName :: "string option"
  redactions :: "(nat \<rightharpoonup> bbox list) option"

text \<open>
  The anchor that is clicked: its \<^verbatim>\<open>href\<close> is the object URL of the blob, here the
  bitmap that the (lossless) PNG encodes, with the blob's type; and its \<^verbatim>\<open>target\<close> and
  \<^verbatim>\<open>download\<close> attributes.
\<close>

record 'c anchor =
  href :: "'c canvas"
  blob_type :: string
  target :: string
  download :: string

text \<open>
  \<^verbatim>\<open>downloadRedacted\<close>. A \<^verbatim>\<open>TypeError\<close> is thrown when \<^verbatim>\<open>querySelector\<close> finds no
  element, when \<^verbatim>\<open>document.redactions\<close> is undefined, when it has no entry for the
  current page (\<^verbatim>\<open>Object.values(undefined)\<close>), when \<^verbatim>\<open>toBlob\<close> hands over
  \<^verbatim>\<open>null\<close> (a canvas without pixels) and when \<^verbatim>\<open>document.objectName\<close> is undefined;
  then nothing is downloaded.
\<close>

definition downloadRedacted ::
  "'c element option \<Rightarrow> document \<Rightarrow> nat \<Rightarrow> js_error + 'c anchor" where
  "downloadRedacted theThing doc currentPage =
     (case theThing of
        None \<Rightarrow> Inl TypeError
      | Some e \<Rightarrow>
          let cnv = createCanvas (js_or (naturalWidth e) (width e))
                      (js_or (naturalHeight e) (height e));
              ctx = (drawImage cnv e)\<lparr>fillStyle := ''#000''\<rparr>
          in (case redactions doc of
                None \<Rightarrow> Inl TypeError
              | Some reds_by_page \<Rightarrow>
                  (case reds_by_page currentPage of
                     None \<Rightarrow> Inl TypeError
                   | Some reds \<Rightarrow>
                       let ctx' = foldl fill_redaction ctx reds
                       in if cnv_width ctx' = 0 \<or> cnv_height ctx' = 0 then Inl TypeError
                          else (case objectName doc of
                                  None \<Rightarrow> Inl TypeError
                                | Some n \<Rightarrow>
                                    Inr \<lparr>href = ctx', blob_type = ''image/png'',
                                         target = ''_blank'',
                                         download = download_name n\<rparr>))))"

section \<open>Notions of the specification\<close>

text \<open>
  The pixel extent of a redaction box on a \<open>W \<times> H\<close> surface, expanded by the margin of
  2 pixels on all four sides, runs from \<open>Left \<cdot> W - 2\<close> to \<open>Left \<cdot> W + Width \<cdot> W + 2\<close>
  and from \<open>Top \<cdot> H - 2\<close> to \<open>Top \<cdot> H + Height \<cdot> H + 2\<close>. Pixel \<open>(i, j)\<close> is
  within it when its square lies between these edges.
\<close>

definition within_margin :: "nat \<Rightarrow> nat \<Rightarrow> bbox \<Rightarrow> nat \<Rightarrow> nat \<Rightarrow> bool" where
  "within_margin W H r i j \<longleftrightarrow>
     Left r * real W - 2 \<le> real i \<and> real i + 1 \<le> Left r * real W + Width r * real W + 2
     \<and> Top r * real H - 2 \<le> real j \<and> real j + 1 \<le> Top r * real H + Height r * real H + 2"

text \<open>
  Pixel \<open>(i, j)\<close> is clear of the expanded extent when its square lies to one side of
  both vertical edges or of both horizontal edges.
\<close>

definition clear_of_margin :: "nat \<Rightarrow> nat \<Rightarrow> bbox \<Rightarrow> nat \<Rightarrow> nat \<Rightarrow> bool" where
  "clear_of_margin W H r i j \<longleftrightarrow>
     real i + 1 \<le> min (Left r * real W - 2) (Left r * real W + Width r * real W + 2)
     \<or> max (Left r * real W - 2) (Left r * real W + Width r * real W + 2) \<le> real i
     \<or> real j + 1 \<le> min (Top r * real H - 2) (Top r * real H + Height r * real H + 2)
     \<or> max (Top r * real H - 2) (Top r * real H + Height r * real H + 2) \<le> real j"

text \<open>The final path component of an object name: what follows its last slash.\<close>

definition final_component :: "string \<Rightarrow> string" where
  "final_component objName = rev (takeWhile (\<lambda>c. c \<noteq> CHR ''/'') (rev objName))"

section \<open>Derived page data: properties\<close>

lemma foldl_marks_step:
  "foldl marks_step acc ps =
     acc @ concat (map (\<lambda>p. [spread_mark (keyBoundingBox p) (pair_id p) ''key'',
                              spread_mark (valueBoundingBox p) (pair_id p) ''value'']) ps)"
  by (induction ps arbitrary: acc) (simp_all add: marks_step_def)

lemma length_foldl_marks_step:
  "length (foldl marks_step acc ps) = length acc + 2 * length ps"
  by (induction ps arbitrary: acc) (simp_all add: marks_step_def)

lemma nth_concat_pairs:
  "k < length ps \<Longrightarrow>
   concat (map (\<lambda>p. [f p, g p]) ps) ! (2 * k) = f (ps ! k)
   \<and> concat (map (\<lambda>p. [f p, g p]) ps) ! (2 * k + 1) = g (ps ! k)"
proof (induction ps arbitrary: k)
  case Nil
  then show ?case by simp
next
  case (Cons p ps)
  show ?case
  proof (cases k)
    case 0
    then show ?thesis by simp
  next
    case (Suc j)
    with Cons.prems have "j < length ps" by simp
    from Cons.IH [OF this] show ?thesis using Suc by simp
  qed
qed

lemma truncate_spread_mark: "bbox.truncate (spread_mark b i t) = b"
  by (simp add: spread_mark_def bbox.truncate_def)

text \<open>
  C5. For every document and every current page number \<open>p\<close>, the page-level key-value
  pairs are the document-level key-value pairs filtered exactly by
  \<open>pageNumber = p\<close>, in the document's order; hence every page-level pair is an
  element of the document-level list, and a document-level pair is page-level exactly
  when its page number is \<open>p\<close>.
\<close>

theorem pageData_pairs_filter:
  "pageData_pairs getKV doc p =
     filter (\<lambda>d. pageNumber d = p) (docData_pairs getKV doc)
   \<and> set (pageData_pairs getKV doc p) \<subseteq> set (docData_pairs getKV doc)
   \<and> set (pageData_pairs getKV doc p) =
       {d. d \<in> set (docData_pairs getKV doc) \<and> pageNumber d = p}"
  by (auto simp: pageData_pairs_def)

text \<open>
  C10. For every list of \<open>N\<close> page-level key-value pairs the marks of the key-value
  tab are \<open>2N\<close> marks: at position \<open>2k\<close> the key bounding box of the \<open>k\<close>-th pair
  with the pair's id and type \<open>key\<close>, at position \<open>2k + 1\<close> its value bounding box
  with the pair's id and type \<open>value\<close>.
\<close>

theorem pagePairsAsMarks_layout:
  "length (pagePairsAsMarks pairs) = 2 * length pairs
   \<and> (\<forall>k < length pairs.
        bbox.truncate (pagePairsAsMarks pairs ! (2 * k)) = keyBoundingBox (pairs ! k)
      \<and> mark_id (pagePairsAsMarks pairs ! (2 * k)) = pair_id (pairs ! k)
      \<and> mark_type (pagePairsAsMarks pairs ! (2 * k)) = ''key''
      \<and> bbox.truncate (pagePairsAsMarks pairs ! (2 * k + 1)) = valueBoundingBox (pairs ! k)
      \<and> mark_id (pagePairsAsMarks pairs ! (2 * k + 1)) = pair_id (pairs ! k)
      \<and> mark_type (pagePairsAsMarks pairs ! (2 * k + 1)) = ''value'')"
proof -
  have len: "length (pagePairsAsMarks pairs) = 2 * length pairs"
    by (simp add: pagePairsAsMarks_def length_foldl_marks_step)
  have nth: "pagePairsAsMarks pairs ! (2 * k) =
               spread_mark (keyBoundingBox (pairs ! k)) (pair_id (pairs ! k)) ''key''
           \<and> pagePairsAsMarks pairs ! (2 * k + 1) =
               spread_mark (valueBoundingBox (pairs ! k)) (pair_id (pairs ! k)) ''value''"
    if "k < length pairs" for k
    using nth_concat_pairs [OF that]
    by (simp add: pagePairsAsMarks_def foldl_marks_step)
  show ?thesis
    using len nth by (simp add: truncate_spread_mark) (simp add: spread_mark_def)
qed

theorem pagePairsAsMarks_layout_witness:
  "mark_type
     (pagePairsAsMarks
        [\<lparr>pair_id = ''a'', pageNumber = 1,
          keyBoundingBox = \<lparr>Left = 0, Top = 0, Width = 1 / 2, Height = 1 / 4\<rparr>,
          valueBoundingBox = \<lparr>Left = 1 / 2, Top = 0, Width = 1 / 2, Height = 1 / 4\<rparr>\<rparr>]
      ! (2 * 0 + 1)) = ''value''
   \<and> bbox.truncate
     (pagePairsAsMarks
        [\<lparr>pair_id = ''a'', pageNumber = 1,
          keyBoundingBox = \<lparr>Left = 0, Top = 0, Width = 1 / 2, Height = 1 / 4\<rparr>,
          valueBoundingBox = \<lparr>Left = 1 / 2, Top = 0, Width = 1 / 2, Height = 1 / 4\<rparr>\<rparr>]
      ! (2 * 0 + 1)) = \<lparr>Left = 1 / 2, Top = 0, Width = 1 / 2, Height = 1 / 4\<rparr>"
  using pagePairsAsMarks_layout
    [of "[\<lparr>pair_id = ''a'', pageNumber = 1,
           keyBoundingBox = \<lparr>Left = 0, Top = 0, Width = 1 / 2, Height = 1 / 4\<rparr>,
           valueBoundingBox = \<lparr>Left = 1 / 2, Top = 0, Width = 1 / 2, Height = 1 / 4\<rparr>\<rparr>]"]
  by simp

section \<open>Redaction commands: properties\<close>

text \<open>
  C3. For every page whose key-value pairs are \<open>p\<^sub>1 \<dots> p\<^sub>N\<close>, \<^verbatim>\<open>redactAllValues\<close>
  dispatches one \<^verbatim>\<open>addRedactions\<close> for the current document and page carrying exactly
  \<open>N\<close> boxes, the \<open>k\<close>-th being the value bounding box of the \<open>k\<close>-th pair; after
  it the redaction set of that page is the former one followed by these \<open>N\<close> boxes in
  the pairs' order.
\<close>

theorem redactAllValues_appends:
  "redactAllValues i page pairs = [AddRedactions i page (map valueBoundingBox pairs)]
   \<and> length (redactionSet (dispatch_all s (redactAllValues i page pairs)) i page) =
       length (redactionSet s i page) + length pairs
   \<and> take (length (redactionSet s i page))
       (redactionSet (dispatch_all s (redactAllValues i page pairs)) i page) =
       redactionSet s i page
   \<and> (\<forall>k < length pairs.
        redactionSet (dispatch_all s (redactAllValues i page pairs)) i page
          ! (length (redactionSet s i page) + k) = valueBoundingBox (pairs ! k))"
  by (simp add: redactAllValues_def dispatch_all_def redactionSet_def nth_append)

theorem redactAllValues_appends_witness:
  "redactionSet
     (dispatch_all
        \<lparr>redactionSets = (\<lambda>d. Map.empty), currentPageNumber = 1, searchQuery = ''foo'',
         headerProps = None\<rparr>
        (redactAllValues ''doc'' 1
           [\<lparr>pair_id = ''a'', pageNumber = 1,
             keyBoundingBox = \<lparr>Left = 0, Top = 0, Width = 1 / 2, Height = 1 / 4\<rparr>,
             valueBoundingBox = \<lparr>Left = 1 / 2, Top = 0, Width = 1 / 2, Height = 1 / 4\<rparr>\<rparr>]))
     ''doc'' 1 ! 0
   = \<lparr>Left = 1 / 2, Top = 0, Width = 1 / 2, Height = 1 / 4\<rparr>"
  using redactAllValues_appends
    [of "''doc''" 1
      "[\<lparr>pair_id = ''a'', pageNumber = 1,
         keyBoundingBox = \<lparr>Left = 0, Top = 0, Width = 1 / 2, Height = 1 / 4\<rparr>,
         valueBoundingBox = \<lparr>Left = 1 / 2, Top = 0, Width = 1 / 2, Height = 1 / 4\<rparr>\<rparr>]"
      "\<lparr>redactionSets = (\<lambda>d. Map.empty), currentPageNumber = 1, searchQuery = ''foo'',
        headerProps = None\<rparr>"]
  by (simp add: redactionSet_def redactAllValues_def dispatch_all_def)

text \<open>
  C4. For every search-match result and every search query, \<^verbatim>\<open>redactMatches\<close> first
  dispatches the matches as redactions of the current page of the current document and
  then an empty search query: afterwards the page's redaction set is the former one
  followed by all the matches, and the search query is the empty string.
\<close>

theorem redactMatches_appends_and_clears_query:
  "redactMatches i page wordsMatchingSearch =
     [AddRedactions i page wordsMatchingSearch, SetSearchQuery '''']
   \<and> redactionSet (dispatch_all s (redactMatches i page wordsMatchingSearch)) i page =
       redactionSet s i page @ wordsMatchingSearch
   \<and> searchQuery (dispatch_all s (redactMatches i page wordsMatchingSearch)) = ''''"
  by (simp add: redactMatches_def dispatch_all_def redactionSet_def)

section \<open>Life cycle: properties\<close>

lemma commit_status_fields [simp]:
  "isMounted (commit_status st v) = isMounted v"
  "rendered (commit_status st v) = rendered v"
  "clear_cleanup_id (commit_status st v) = clear_cleanup_id v"
  "pending_fetches (commit_status st v) = pending_fetches v"
  by (simp_all add: commit_status_def)

lemma commit_status_unmounted:
  "\<not> isMounted v \<Longrightarrow> setStatus_calls (commit_status st v) = setStatus_calls v"
  by (simp add: commit_status_def)

lemma commit_status_mounted:
  "isMounted v \<Longrightarrow> status (commit_status st v) = st"
  by (simp add: commit_status_def status_def)

lemma fetch_effect_fields [simp]:
  "isMounted (fst (fetch_effect pr v)) = isMounted v"
  "rendered (fst (fetch_effect pr v)) = rendered v"
  "clear_cleanup_id (fst (fetch_effect pr v)) = clear_cleanup_id v"
  by (simp_all add: fetch_effect_def)

lemma fetch_effect_unmounted:
  "\<not> isMounted v \<Longrightarrow> setStatus_calls (fst (fetch_effect pr v)) = setStatus_calls v"
  by (simp add: fetch_effect_def commit_status_unmounted)

lemma step_unmounted:
  assumes "\<not> isMounted v"
  shows "\<not> isMounted (fst (step v e))
         \<and> setStatus_calls (fst (step v e)) = setStatus_calls v"
proof (cases e)
  case (Rerender pr)
  then show ?thesis
    using assms by (simp add: Let_def split_beta fetch_effect_unmounted)
next
  case FetchResolved
  then show ?thesis using assms by (simp add: commit_status_unmounted)
next
  case FetchRejected
  then show ?thesis using assms by (simp add: commit_status_unmounted)
next
  case Unmount
  then show ?thesis using assms by simp
qed

lemma run_unmounted:
  "\<not> isMounted v \<Longrightarrow> setStatus_calls (fst (run v evs)) = setStatus_calls v"
proof (induction evs arbitrary: v)
  case Nil
  then show ?case by simp
next
  case (Cons e es)
  from step_unmounted [OF Cons.prems, of e]
  have a: "\<not> isMounted (fst (step v e))"
    and b: "setStatus_calls (fst (step v e)) = setStatus_calls v"
    by simp_all
  from Cons.IH [OF a] b show ?case
    by (simp add: split_beta)
qed

lemma step_cleanup_id:
  "clear_cleanup_id v = p_id (rendered v) \<Longrightarrow>
   clear_cleanup_id (fst (step v e)) = p_id (rendered (fst (step v e)))"
  by (cases e) (simp_all add: Let_def split_beta)

lemma run_cleanup_id:
  "clear_cleanup_id v = p_id (rendered v) \<Longrightarrow>
   clear_cleanup_id (fst (run v evs)) = p_id (rendered (fst (run v evs)))"
proof (induction evs arbitrary: v)
  case Nil
  then show ?case by simp
next
  case (Cons e es)
  from Cons.IH [OF step_cleanup_id [OF Cons.prems, of e]] show ?case
    by (simp add: split_beta)
qed

lemma mount_cleanup_id:
  "clear_cleanup_id (fst (mount pr)) = p_id (rendered (fst (mount pr)))"
  by (simp add: mount_def Let_def split_beta)

lemma redactionSet_after_clear:
  "redactionSet (dispatch_all s (ClearRedactions i # SetHeaderProps h # [])) i page = []"
  by (simp add: dispatch_all_def redactionSet_def)

text \<open>
  C7. Whenever the view is torn down, whatever renders, fetch results and other events
  it has seen since it was mounted, a clear-redactions command for the id of the
  document it last rendered is issued, and after the commands of the teardown the
  redaction set of every page of that document is empty; \<^verbatim>\<open>clearReds\<close>, the explicit
  user request, issues the same command with the same effect.
\<close>

theorem unmount_clears_redactions:
  "ClearRedactions (p_id (rendered (fst (run (fst (mount pr)) evs))))
     \<in> set (snd (step (fst (run (fst (mount pr)) evs)) Unmount))
   \<and> redactionSet
       (dispatch_all s (snd (step (fst (run (fst (mount pr)) evs)) Unmount)))
       (p_id (rendered (fst (run (fst (mount pr)) evs)))) page = []
   \<and> clearReds i = [ClearRedactions i]
   \<and> redactionSet (dispatch_all s (clearReds i)) i page = []"
proof -
  let ?v = "fst (run (fst (mount pr)) evs)"
  have inv: "clear_cleanup_id ?v = p_id (rendered ?v)"
    by (rule run_cleanup_id [OF mount_cleanup_id])
  have acts: "snd (step ?v Unmount) =
                [ClearRedactions (p_id (rendered ?v)), SetHeaderProps None]"
    using inv by simp
  show ?thesis
    unfolding acts
    by (simp add: redactionSet_after_clear)
       (simp add: clearReds_def dispatch_all_def redactionSet_def)
qed

text \<open>
  C8. Whenever the view is freshly mounted, \<^verbatim>\<open>setCurrentPageNumber(1)\<close> is dispatched,
  and after the commands of the mount the current page number of the store is 1,
  whatever it was before.
\<close>

theorem mount_resets_currentPageNumber:
  "SetCurrentPageNumber 1 \<in> set (snd (mount pr))
   \<and> currentPageNumber (dispatch_all s (snd (mount pr))) = 1"
  by (simp add: mount_def fetch_effect_def dispatch_all_def Let_def)

text \<open>
  C9. Every commit of a fetch status is behind the liveness flag. Once the view has been
  torn down, no later event (a fetch that resolves or rejects, or anything else) commits
  a status: the calls of \<^verbatim>\<open>setStatus\<close> and the status stay as they were at teardown.
  While the view is mounted the statuses are committed: \<^verbatim>\<open>'pending'\<close> when a fetch
  starts, \<^verbatim>\<open>'success'\<close> when a pending fetch resolves, \<^verbatim>\<open>'error'\<close> when it rejects.
\<close>

theorem no_status_commit_after_unmount:
  "setStatus_calls (fst (run (fst (step v Unmount)) evs)) = setStatus_calls v
   \<and> status (fst (run (fst (step v Unmount)) evs)) = status v
   \<and> (isMounted v \<and> \<not> p_isDocumentFetched pr \<longrightarrow>
        status (fst (fetch_effect pr v)) = ''pending'')
   \<and> (isMounted v \<and> 0 < pending_fetches v \<longrightarrow>
        status (fst (step v FetchResolved)) = ''success''
      \<and> status (fst (step v FetchRejected)) = ''error'')"
proof -
  have "\<not> isMounted (fst (step v Unmount))" by simp
  from run_unmounted [OF this, of evs]
  have calls: "setStatus_calls (fst (run (fst (step v Unmount)) evs)) = setStatus_calls v"
    by simp
  then have st: "status (fst (run (fst (step v Unmount)) evs)) = status v"
    by (simp add: status_def)
  have pend: "status (fst (fetch_effect pr v)) = ''pending''"
    if "isMounted v" "\<not> p_isDocumentFetched pr"
    using that by (simp add: fetch_effect_def commit_status_def status_def)
  have settle: "status (fst (step v FetchResolved)) = ''success''
                \<and> status (fst (step v FetchRejected)) = ''error''"
    if "isMounted v" "0 < pending_fetches v"
    using that by (simp add: commit_status_mounted)
  from calls st pend settle show ?thesis by blast
qed

theorem no_status_commit_after_unmount_witness:
  "status
     (fst (run
       (fst (step
         (fst (mount \<lparr>p_id = ''doc'', p_isDocumentFetched = False, p_documentName = None,
                      p_pageTitle = None, p_track = ''redaction''\<rparr>))
         Unmount))
       [FetchResolved])) = ''pending''
   \<and> status
     (fst (step
       (fst (mount \<lparr>p_id = ''doc'', p_isDocumentFetched = False, p_documentName = None,
                    p_pageTitle = None, p_track = ''redaction''\<rparr>))
       FetchResolved)) = ''success''"
  using no_status_commit_after_unmount
    [of "fst (mount \<lparr>p_id = ''doc'', p_isDocumentFetched = False, p_documentName = None,
                     p_pageTitle = None, p_track = ''redaction''\<rparr>)"
        "[FetchResolved]"
        "\<lparr>p_id = ''doc'', p_isDocumentFetched = False, p_documentName = None,
          p_pageTitle = None, p_track = ''redaction''\<rparr>"]
  by (simp add: mount_def fetch_effect_def commit_status_def status_def)

section \<open>Raster export: properties\<close>

lemma fillRect_dims [simp]:
  "cnv_width (fillRect c x y w h) = cnv_width c"
  "cnv_height (fillRect c x y w h) = cnv_height c"
  "fillStyle (fillRect c x y w h) = fillStyle c"
  by (simp_all add: fillRect_def Let_def)

lemma fill_redaction_dims [simp]:
  "cnv_width (fill_redaction c r) = cnv_width c"
  "cnv_height (fill_redaction c r) = cnv_height c"
  "fillStyle (fill_redaction c r) = fillStyle c"
  by (simp_all add: fill_redaction_def Let_def)

lemma foldl_fill_redaction_dims [simp]:
  "cnv_width (foldl fill_redaction c rs) = cnv_width c"
  "cnv_height (foldl fill_redaction c rs) = cnv_height c"
  "fillStyle (foldl fill_redaction c rs) = fillStyle c"
  by (induction rs arbitrary: c) simp_all

lemma fill_redaction_within:
  assumes "i < cnv_width c" "j < cnv_height c"
    and "within_margin (cnv_width c) (cnv_height c) r i j"
  shows "pixels (fill_redaction c r) i j = Filled (fillStyle c)"
proof -
  let ?W = "real (cnv_width c)" and ?H = "real (cnv_height c)"
  from assms(3) have x: "Left r * ?W - 2 \<le> real i" "real i + 1 \<le> Left r * ?W + Width r * ?W + 2"
    and y: "Top r * ?H - 2 \<le> real j" "real j + 1 \<le> Top r * ?H + Height r * ?H + 2"
    by (simp_all add: within_margin_def)
  from x have w: "0 < Width r * ?W + 2 * 2" by linarith
  from y have h: "0 < Height r * ?H + 2 * 2" by linarith
  show ?thesis
    using assms(1,2) x y w h
    by (simp add: fill_redaction_def fillRect_def Let_def min_def max_def)
qed

lemma fill_redaction_clear:
  assumes "clear_of_margin (cnv_width c) (cnv_height c) r i j"
  shows "pixels (fill_redaction c r) i j = pixels c i j"
proof -
  let ?W = "real (cnv_width c)" and ?H = "real (cnv_height c)"
  have e1: "Left r * ?W - 2 + (Width r * ?W + 2 * 2) = Left r * ?W + Width r * ?W + 2"
    by simp
  have e2: "Top r * ?H - 2 + (Height r * ?H + 2 * 2) = Top r * ?H + Height r * ?H + 2"
    by simp
  show ?thesis
    using assms unfolding clear_of_margin_def fill_redaction_def fillRect_def Let_def e1 e2
    by auto
qed

lemma fill_redaction_keeps_filled:
  assumes "pixels c i j = Filled (fillStyle c)"
  shows "pixels (fill_redaction c r) i j = Filled (fillStyle c)"
  using assms by (simp add: fill_redaction_def fillRect_def Let_def blend_def)

lemma foldl_keeps_filled:
  "pixels c i j = Filled (fillStyle c) \<Longrightarrow>
   pixels (foldl fill_redaction c rs) i j = Filled (fillStyle c)"
proof (induction rs arbitrary: c)
  case Nil
  then show ?case by simp
next
  case (Cons r rs)
  from fill_redaction_keeps_filled [OF Cons.prems, of r]
  have "pixels (fill_redaction c r) i j = Filled (fillStyle (fill_redaction c r))" by simp
  from Cons.IH [OF this] show ?case by simp
qed

lemma foldl_within:
  assumes "i < cnv_width c" "j < cnv_height c"
    and "\<exists>r \<in> set rs. within_margin (cnv_width c) (cnv_height c) r i j"
  shows "pixels (foldl fill_redaction c rs) i j = Filled (fillStyle c)"
  using assms
proof (induction rs arbitrary: c)
  case Nil
  then show ?case by simp
next
  case (Cons r rs)
  show ?case
  proof (cases "within_margin (cnv_width c) (cnv_height c) r i j")
    case True
    from fill_redaction_within [OF Cons.prems(1,2) True]
    have "pixels (fill_redaction c r) i j = Filled (fillStyle (fill_redaction c r))" by simp
    from foldl_keeps_filled [OF this, of rs] show ?thesis by simp
  next
    case False
    with Cons.prems(3)
    have "\<exists>r' \<in> set rs. within_margin (cnv_width (fill_redaction c r))
            (cnv_height (fill_redaction c r)) r' i j"
      by auto
    moreover have "i < cnv_width (fill_redaction c r)" "j < cnv_height (fill_redaction c r)"
      using Cons.prems(1,2) by simp_all
    ultimately have "pixels (foldl fill_redaction (fill_redaction c r) rs) i j =
                       Filled (fillStyle (fill_redaction c r))"
      using Cons.IH [of "fill_redaction c r"] by blast
    then show ?thesis by simp
  qed
qed

lemma foldl_clear:
  assumes "\<forall>r \<in> set rs. clear_of_margin (cnv_width c) (cnv_height c) r i j"
  shows "pixels (foldl fill_redaction c rs) i j = pixels c i j"
  using assms
proof (induction rs arbitrary: c)
  case Nil
  then show ?case by simp
next
  case (Cons r rs)
  from Cons.prems have a: "clear_of_margin (cnv_width c) (cnv_height c) r i j"
    and b: "\<forall>r' \<in> set rs. clear_of_margin (cnv_width (fill_redaction c r))
              (cnv_height (fill_redaction c r)) r' i j"
    by simp_all
  from Cons.IH [OF b] fill_redaction_clear [OF a] show ?case by simp
qed

lemma js_or_intrinsic:
  "0 < intrinsic_width e \<Longrightarrow> js_or (naturalWidth e) (width e) = intrinsic_width e"
  "0 < intrinsic_height e \<Longrightarrow> js_or (naturalHeight e) (height e) = intrinsic_height e"
  by (simp_all add: js_or_def intrinsic_width_def intrinsic_height_def split: option.splits)

lemma downloadRedacted_result:
  assumes "0 < intrinsic_width e" "0 < intrinsic_height e"
    and "redactions doc = Some rs" "rs page = Some reds" "objectName doc = Some n"
  shows "downloadRedacted (Some e) doc page =
           Inr \<lparr>href = foldl fill_redaction
                   ((drawImage (createCanvas (intrinsic_width e) (intrinsic_height e)) e)
                      \<lparr>fillStyle := ''#000''\<rparr>) reds,
                blob_type = ''image/png'', target = ''_blank'',
                download = download_name n\<rparr>"
  using assms
  by (simp add: downloadRedacted_def js_or_intrinsic Let_def drawImage_def createCanvas_def)

lemma base_canvas:
  "cnv_width ((drawImage (createCanvas W H) e)\<lparr>fillStyle := st\<rparr>) = W"
  "cnv_height ((drawImage (createCanvas W H) e)\<lparr>fillStyle := st\<rparr>) = H"
  "fillStyle ((drawImage (createCanvas W H) e)\<lparr>fillStyle := st\<rparr>) = st"
  by (simp_all add: drawImage_def createCanvas_def)

lemma base_canvas_pixels:
  "i < intrinsic_width e \<Longrightarrow> j < intrinsic_height e \<Longrightarrow>
   pixels ((drawImage (createCanvas (intrinsic_width e) (intrinsic_height e)) e)
             \<lparr>fillStyle := st\<rparr>) i j = Source (bitmap e i j)"
  by (simp add: drawImage_def createCanvas_def)

lemma example_box_within:
  "within_margin 800 600 \<lparr>Left = 1 / 10, Top = 1 / 10, Width = 2 / 10, Height = 1 / 10\<rparr> i j
   \<longleftrightarrow> 78 \<le> i \<and> i < 242 \<and> 58 \<le> j \<and> j < 122"
  by (auto simp: within_margin_def)

lemma example_box_clear:
  "clear_of_margin 800 600 \<lparr>Left = 1 / 10, Top = 1 / 10, Width = 2 / 10, Height = 1 / 10\<rparr> i j
   \<longleftrightarrow> \<not> (78 \<le> i \<and> i < 242 \<and> 58 \<le> j \<and> j < 122)"
  by (auto simp: clear_of_margin_def)

text \<open>
  C1. When the page surface is loaded (its intrinsic size \<open>W \<times> H\<close> is positive), the
  current page has a redaction entry and the document has an object name, the export
  yields a canvas of exactly the intrinsic size in which, for every redaction box of the
  page, every pixel within the box's pixel extent (left and width times \<open>W\<close>, top and
  height times \<open>H\<close>) expanded by 2 pixels on all four sides is painted with the opaque
  fill style \<^verbatim>\<open>#000\<close>, and every pixel clear of the expanded extents of all boxes is
  the pixel of the source image. In particular, on an 800 by 600 surface with the single
  box \<open>(left 0.1, top 0.1, width 0.2, height 0.1)\<close> the painted pixels are exactly the
  columns 78 to 241 and rows 58 to 121, that is, the rectangle from x = 78 to x = 242 and
  from y = 58 to y = 122 (pixel \<open>i\<close> spans \<open>i\<close> to \<open>i + 1\<close>), and every other pixel
  equals the source image. (In double precision \<open>0.1 \<cdot> 800\<close>, \<open>0.2 \<cdot> 800\<close> and
  \<open>0.1 \<cdot> 600\<close> round to exactly 80, 160 and 60, as over the reals.)
\<close>

theorem downloadRedacted_fills_redactions:
  assumes "0 < intrinsic_width e" and "0 < intrinsic_height e"
    and "redactions doc = Some rs" and "rs page = Some reds" and "objectName doc = Some n"
  shows "\<exists>a. downloadRedacted (Some e) doc page = Inr a
     \<and> cnv_width (href a) = intrinsic_width e \<and> cnv_height (href a) = intrinsic_height e
     \<and> (\<forall>i < intrinsic_width e. \<forall>j < intrinsic_height e.
          ((\<exists>r \<in> set reds. within_margin (intrinsic_width e) (intrinsic_height e) r i j)
             \<longrightarrow> pixels (href a) i j = Filled ''#000'')
        \<and> ((\<forall>r \<in> set reds. clear_of_margin (intrinsic_width e) (intrinsic_height e) r i j)
             \<longrightarrow> pixels (href a) i j = Source (bitmap e i j)))
     \<and> (intrinsic_width e = 800 \<and> intrinsic_height e = 600
        \<and> reds = [\<lparr>Left = 1 / 10, Top = 1 / 10, Width = 2 / 10, Height = 1 / 10\<rparr>]
        \<longrightarrow> (\<forall>i < 800. \<forall>j < 600.
               pixels (href a) i j =
                 (if 78 \<le> i \<and> i < 242 \<and> 58 \<le> j \<and> j < 122 then Filled ''#000''
                  else Source (bitmap e i j))))"
proof -
  let ?W = "intrinsic_width e" and ?H = "intrinsic_height e"
  let ?c = "(drawImage (createCanvas ?W ?H) e)\<lparr>fillStyle := ''#000''\<rparr>"
  let ?out = "foldl fill_redaction ?c reds"
  let ?a = "\<lparr>href = ?out, blob_type = ''image/png'', target = ''_blank'',
             download = download_name n\<rparr>"
  have res: "downloadRedacted (Some e) doc page = Inr ?a"
    by (rule downloadRedacted_result [OF assms])
  have dims: "cnv_width ?out = ?W" "cnv_height ?out = ?H"
    by (simp_all add: base_canvas)
  have filled: "pixels ?out i j = Filled ''#000''"
    if "i < ?W" "j < ?H" "\<exists>r \<in> set reds. within_margin ?W ?H r i j" for i j
    using foldl_within [of i ?c j reds] that by (simp add: base_canvas)
  have kept: "pixels ?out i j = Source (bitmap e i j)"
    if "i < ?W" "j < ?H" "\<forall>r \<in> set reds. clear_of_margin ?W ?H r i j" for i j
    using foldl_clear [of reds ?c i j] that by (simp add: drawImage_def createCanvas_def)
  have example: "pixels ?out i j =
      (if 78 \<le> i \<and> i < 242 \<and> 58 \<le> j \<and> j < 122 then Filled ''#000''
       else Source (bitmap e i j))"
    if size: "?W = 800" "?H = 600"
      and box: "reds = [\<lparr>Left = 1 / 10, Top = 1 / 10, Width = 2 / 10, Height = 1 / 10\<rparr>]"
      and ij: "i < 800" "j < 600" for i j
  proof (cases "78 \<le> i \<and> i < 242 \<and> 58 \<le> j \<and> j < 122")
    case True
    then have "\<exists>r \<in> set reds. within_margin ?W ?H r i j"
      using example_box_within [of i j] by (simp add: size box)
    from filled [OF _ _ this] ij size True show ?thesis by simp
  next
    case False
    then have "\<forall>r \<in> set reds. clear_of_margin ?W ?H r i j"
      using example_box_clear [of i j] by (simp add: size box)
    from kept [OF _ _ this] ij size False show ?thesis by simp
  qed
  have "cnv_width (href ?a) = ?W \<and> cnv_height (href ?a) = ?H
     \<and> (\<forall>i < ?W. \<forall>j < ?H.
          ((\<exists>r \<in> set reds. within_margin ?W ?H r i j)
             \<longrightarrow> pixels (href ?a) i j = Filled ''#000'')
        \<and> ((\<forall>r \<in> set reds. clear_of_margin ?W ?H r i j)
             \<longrightarrow> pixels (href ?a) i j = Source (bitmap e i j)))
     \<and> (?W = 800 \<and> ?H = 600
        \<and> reds = [\<lparr>Left = 1 / 10, Top = 1 / 10, Width = 2 / 10, Height = 1 / 10\<rparr>]
        \<longrightarrow> (\<forall>i < 800. \<forall>j < 600.
               pixels (href ?a) i j =
                 (if 78 \<le> i \<and> i < 242 \<and> 58 \<le> j \<and> j < 122 then Filled ''#000''
                  else Source (bitmap e i j))))"
    using dims filled kept example by simp
  with res show ?thesis by blast
qed

theorem downloadRedacted_fills_redactions_witness:
  "\<exists>a. downloadRedacted
          (Some \<lparr>naturalWidth = Some 800, naturalHeight = Some 600, width = 400, height = 300,
                 bitmap = (\<lambda>x y. x + y)\<rparr>)
          \<lparr>objectName = Some ''uploads/form.pdf'',
           redactions = Some [1 \<mapsto> [\<lparr>Left = 1 / 10, Top = 1 / 10, Width = 2 / 10,
                                      Height = 1 / 10\<rparr>]]\<rparr> 1 = Inr a
      \<and> cnv_width (href a) = 800 \<and> cnv_height (href a) = 600
      \<and> pixels (href a) 78 58 = Filled ''#000''
      \<and> pixels (href a) 241 121 = Filled ''#000''
      \<and> pixels (href a) 77 58 = Source 135
      \<and> pixels (href a) 242 121 = Source 363
      \<and> pixels (href a) 100 122 = Source 222"
proof -
  let ?e = "\<lparr>naturalWidth = Some 800, naturalHeight = Some 600, width = 400, height = 300,
             bitmap = (\<lambda>x y. x + y)\<rparr> :: nat element"
  let ?box = "\<lparr>Left = 1 / 10, Top = 1 / 10, Width = 2 / 10, Height = 1 / 10\<rparr>"
  let ?doc = "\<lparr>objectName = Some ''uploads/form.pdf'', redactions = Some [1 \<mapsto> [?box]]\<rparr>"
  have w: "intrinsic_width ?e = 800" and h: "intrinsic_height ?e = 600"
    by (simp_all add: intrinsic_width_def intrinsic_height_def)
  have "0 < intrinsic_width ?e" "0 < intrinsic_height ?e"
    "redactions ?doc = Some [1 \<mapsto> [?box]]" "[1 \<mapsto> [?box]] (1::nat) = Some [?box]"
    "objectName ?doc = Some ''uploads/form.pdf''"
    by (simp_all add: w h)
  from downloadRedacted_fills_redactions [OF this]
  obtain a where res: "downloadRedacted (Some ?e) ?doc 1 = Inr a"
    and dims: "cnv_width (href a) = intrinsic_width ?e" "cnv_height (href a) = intrinsic_height ?e"
    and px: "\<forall>i < 800. \<forall>j < 600.
               pixels (href a) i j =
                 (if 78 \<le> i \<and> i < 242 \<and> 58 \<le> j \<and> j < 122 then Filled ''#000''
                  else Source (bitmap ?e i j))"
    using w h by auto
  have "pixels (href a) 78 58 = Filled ''#000''" "pixels (href a) 241 121 = Filled ''#000''"
    "pixels (href a) 77 58 = Source 135" "pixels (href a) 242 121 = Source 363"
    "pixels (href a) 100 122 = Source 222"
    using px by simp_all
  with res dims w h show ?thesis by simp
qed

lemma downloadRedacted_no_entry:
  "redactions doc = Some rs \<Longrightarrow> rs page = None \<Longrightarrow>
   downloadRedacted theThing doc page = Inl TypeError"
  by (simp add: downloadRedacted_def Let_def split: option.splits)

lemma downloadRedacted_no_redactions:
  "redactions doc = None \<Longrightarrow> downloadRedacted theThing doc page = Inl TypeError"
  by (simp add: downloadRedacted_def Let_def split: option.splits)

lemma downloadRedacted_empty_entry:
  assumes "0 < intrinsic_width e" and "0 < intrinsic_height e"
    and "redactions doc = Some rs" and "rs page = Some []" and "objectName doc = Some n"
  shows "\<exists>a. downloadRedacted (Some e) doc page = Inr a
     \<and> cnv_width (href a) = intrinsic_width e \<and> cnv_height (href a) = intrinsic_height e
     \<and> (\<forall>i < intrinsic_width e. \<forall>j < intrinsic_height e.
          pixels (href a) i j = Source (bitmap e i j))"
  using downloadRedacted_result [OF assms]
  by (simp add: drawImage_def createCanvas_def)

text \<open>
  C2. The claim is that the export does not fault on a current page without a redaction
  entry and downloads an unmodified copy of the page. The code does fault there: with a
  redaction on page 1 only (so that the download button is shown) and page 2 current,
  \<^verbatim>\<open>document.redactions[2]\<close> is undefined, \<^verbatim>\<open>Object.values(undefined)\<close> throws a
  \<^verbatim>\<open>TypeError\<close> and nothing is downloaded. (With an entry that is the empty list the
  copy is unmodified, see \<open>downloadRedacted_empty_entry\<close>.)
\<close>

theorem downloadRedacted_faults_without_page_entry:
  "downloadRedacted
     (Some \<lparr>naturalWidth = Some 800, naturalHeight = Some 600, width = 400, height = 300,
            bitmap = (\<lambda>x y. x + y)\<rparr>)
     \<lparr>objectName = Some ''uploads/form.pdf'',
      redactions = Some [1 \<mapsto> [\<lparr>Left = 1 / 10, Top = 1 / 10, Width = 2 / 10,
                                 Height = 1 / 10\<rparr>]]\<rparr> 2 = Inl TypeError"
  by (simp add: downloadRedacted_def Let_def)

section \<open>Name of the download: properties\<close>

lemma split_on_not_Nil [simp]: "split_on c s \<noteq> []"
  by (induction s) (simp_all add: Let_def)

lemma split_on_no_separator: "c \<notin> set s \<Longrightarrow> split_on c s = [s]"
  by (induction s) (auto simp: Let_def)

lemma split_on_separator: "c \<in> set s \<Longrightarrow> tl (split_on c s) \<noteq> []"
  by (induction s) (auto simp: Let_def)

lemma last_split_on:
  "last (split_on c s) = rev (takeWhile (\<lambda>x. x \<noteq> c) (rev s))"
proof (induction s)
  case Nil
  then show ?case by simp
next
  case (Cons x xs)
  show ?case
  proof (cases "c \<in> set xs")
    case True
    then have tw: "takeWhile (\<lambda>x. x \<noteq> c) (rev xs @ [x]) = takeWhile (\<lambda>x. x \<noteq> c) (rev xs)"
      by (simp add: takeWhile_append1)
    have "tl (split_on c xs) \<noteq> []"
      by (rule split_on_separator [OF True])
    then have "last ((x # hd (split_on c xs)) # tl (split_on c xs)) = last (split_on c xs)"
      by (cases "split_on c xs") simp_all
    then show ?thesis using Cons.IH tw by (simp add: Let_def)
  next
    case False
    then have all: "\<forall>y \<in> set (rev xs). y \<noteq> c" by auto
    have tw: "takeWhile (\<lambda>x. x \<noteq> c) (rev xs @ ys) =
                rev xs @ takeWhile (\<lambda>x. x \<noteq> c) ys" for ys
      by (rule takeWhile_append2) (use all in simp)
    show ?thesis
    proof (cases "x = c")
      case True
      then show ?thesis using False by (simp add: Let_def split_on_no_separator tw)
    next
      case neq: False
      then show ?thesis using False by (simp add: Let_def split_on_no_separator tw)
    qed
  qed
qed

lemma download_name_final_component:
  "download_name n = replace_ext (final_component n)"
  by (simp add: download_name_def final_component_def last_split_on)

lemma replace_ext_extension:
  "ext \<noteq> [] \<Longrightarrow> CHR ''.'' \<notin> set ext \<Longrightarrow>
   replace_ext (stem @ CHR ''.'' # ext) = stem @ ''-REDACTED.png''"
  by (induction stem) (auto simp: ext_match_def)

lemma replace_ext_no_dot: "CHR ''.'' \<notin> set s \<Longrightarrow> replace_ext s = s"
  by (induction s) (auto simp: ext_match_def)

lemma replace_ext_trailing_dot: "replace_ext (stem @ ''.'') = stem @ ''.''"
  by (induction stem) (auto simp: ext_match_def)

text \<open>
  C6 (as amended). The export triggers a download of type \<^verbatim>\<open>image/png\<close>. When the final
  path component of the object name is a stem, a dot and an extension of one or more
  characters without a dot, the file name is the stem followed by \<^verbatim>\<open>-REDACTED.png\<close>;
  when the final path component has no dot or ends in a dot, the file name is the final
  path component unchanged.
\<close>

theorem download_name_extension:
  assumes "0 < intrinsic_width e" and "0 < intrinsic_height e"
    and "redactions doc = Some rs" and "rs page = Some reds" and "objectName doc = Some n"
  shows "\<exists>a. downloadRedacted (Some e) doc page = Inr a
     \<and> blob_type a = ''image/png''
     \<and> (\<forall>stem ext. final_component n = stem @ CHR ''.'' # ext \<and> ext \<noteq> []
          \<and> CHR ''.'' \<notin> set ext \<longrightarrow> download a = stem @ ''-REDACTED.png'')
     \<and> (CHR ''.'' \<notin> set (final_component n) \<or> (\<exists>stem. final_component n = stem @ ''.'')
          \<longrightarrow> download a = final_component n)"
proof -
  have a: "download_name n = stem @ ''-REDACTED.png''"
    if "final_component n = stem @ CHR ''.'' # ext" "ext \<noteq> []" "CHR ''.'' \<notin> set ext"
    for stem ext
    using that by (simp add: download_name_final_component replace_ext_extension)
  have b: "download_name n = final_component n"
    if "CHR ''.'' \<notin> set (final_component n) \<or> (\<exists>stem. final_component n = stem @ ''.'')"
    using that replace_ext_no_dot [of "final_component n"] replace_ext_trailing_dot
    by (auto simp: download_name_final_component)
  have "blob_type \<lparr>href = h, blob_type = ''image/png'', target = ''_blank'',
                    download = download_name n\<rparr> = ''image/png''
     \<and> (\<forall>stem ext. final_component n = stem @ CHR ''.'' # ext \<and> ext \<noteq> []
          \<and> CHR ''.'' \<notin> set ext \<longrightarrow>
          download \<lparr>href = h, blob_type = ''image/png'', target = ''_blank'',
                    download = download_name n\<rparr> = stem @ ''-REDACTED.png'')
     \<and> (CHR ''.'' \<notin> set (final_component n) \<or> (\<exists>stem. final_component n = stem @ ''.'')
          \<longrightarrow> download \<lparr>href = h, blob_type = ''image/png'', target = ''_blank'',
                    download = download_name n\<rparr> = final_component n)" for h :: "'a canvas"
    using a b by simp
  with downloadRedacted_result [OF assms] show ?thesis by blast
qed

theorem download_name_extension_witness:
  "\<exists>a. downloadRedacted
          (Some \<lparr>naturalWidth = Some 800, naturalHeight = Some 600, width = 400, height = 300,
                 bitmap = (\<lambda>x y. x + y)\<rparr>)
          \<lparr>objectName = Some ''uploads/form.v2.pdf'',
           redactions = Some [1 \<mapsto> []]\<rparr> 1 = Inr a
      \<and> blob_type a = ''image/png'' \<and> download a = ''form.v2-REDACTED.png''"
proof -
  let ?e = "\<lparr>naturalWidth = Some 800, naturalHeight = Some 600, width = 400, height = 300,
             bitmap = (\<lambda>x y. x + y)\<rparr> :: nat element"
  let ?doc = "\<lparr>objectName = Some ''uploads/form.v2.pdf'', redactions = Some [1 \<mapsto> []]\<rparr>"
  have "0 < intrinsic_width ?e" "0 < intrinsic_height ?e"
    "redactions ?doc = Some [1 \<mapsto> []]" "[1 \<mapsto> []] (1::nat) = Some []"
    "objectName ?doc = Some ''uploads/form.v2.pdf''"
    by (simp_all add: intrinsic_width_def intrinsic_height_def)
  from download_name_extension [OF this]
  obtain a where res: "downloadRedacted (Some ?e) ?doc 1 = Inr a"
    and ty: "blob_type a = ''image/png''"
    and nm: "\<forall>stem ext. final_component ''uploads/form.v2.pdf'' = stem @ CHR ''.'' # ext
               \<and> ext \<noteq> [] \<and> CHR ''.'' \<notin> set ext \<longrightarrow> download a = stem @ ''-REDACTED.png''"
    by blast
  have "final_component ''uploads/form.v2.pdf'' = ''form.v2'' @ CHR ''.'' # ''pdf''
          \<and> ''pdf'' \<noteq> [] \<and> CHR ''.'' \<notin> set ''pdf''"
    by (simp add: final_component_def)
  with nm [rule_format, of "''form.v2''" "''pdf''"]
  have "download a = ''form.v2'' @ ''-REDACTED.png''"
    by blast
  with res ty show ?thesis by simp
qed

text \<open>
  C6 as stated fails: the object name \<^verbatim>\<open>uploads/scan\<close> has no extension, and the
  download is named \<^verbatim>\<open>scan\<close>, which does not end in \<^verbatim>\<open>-REDACTED.png\<close>.
\<close>

theorem download_name_counterexample:
  "\<exists>a. downloadRedacted
          (Some \<lparr>naturalWidth = Some 800, naturalHeight = Some 600, width = 400, height = 300,
                 bitmap = (\<lambda>x y. x + y)\<rparr>)
          \<lparr>objectName = Some ''uploads/scan'', redactions = Some [1 \<mapsto> []]\<rparr> 1 = Inr a
      \<and> blob_type a = ''image/png'' \<and> download a = ''scan''
      \<and> (\<forall>stem. download a \<noteq> stem @ ''-REDACTED.png'')"
proof -
  have "length ''scan'' \<noteq> length (stem @ ''-REDACTED.png'')" for stem :: string
    by simp
  then have "\<forall>stem. ''scan'' \<noteq> stem @ ''-REDACTED.png''"
    by metis
  then show ?thesis
    by (simp add: downloadRedacted_def Let_def js_or_def download_name_def ext_match_def
        drawImage_def createCanvas_def)
qed

end
